theory Spec2Isabelle
  imports Complex_Main "HOL-Library.AList" "HOL-Library.Multiset"
begin

section \<open>Numbers, strings and exceptions of the Python program\<close>

text \<open>
  The program \<^verbatim>\<open>oxygen_sim.py\<close> computes with Python \<^verbatim>\<open>float\<close> values. Two readings of
  its arithmetic are used, and every statement says which one it is in.

  In exact arithmetic a float is a real number: \<^verbatim>\<open>math.pi\<close> is \<^term>\<open>pi\<close>, \<^verbatim>\<open>math.cos\<close> and
  \<^verbatim>\<open>math.sin\<close> are \<^term>\<open>cos\<close> and \<^term>\<open>sin\<close>, and \<^verbatim>\<open>+\<close>, \<^verbatim>\<open>*\<close>, \<^verbatim>\<open>/\<close> are exact. The
  classes \<open>Electron\<close> and \<open>Atom\<close> below are in this reading; rounding, overflow,
  infinities and NaN do not occur in it.

  Line 32, where \<^verbatim>\<open>step\<close> normalises the angle, is also modelled in IEEE 754 binary64 as the
  interpreter computes it (section \<open>Line 32 in binary64 arithmetic\<close>); the range of the angle
  after \<^verbatim>\<open>step\<close> and the exceptions of \<^verbatim>\<open>step\<close> are settled there.
  Python \<^verbatim>\<open>int\<close> is \<^typ>\<open>int\<close>.
\<close>

text \<open>
  In exact arithmetic Python's \<^verbatim>\<open>x % m\<close> on floats is \<^verbatim>\<open>x - m * floor(x / m)\<close>, with the sign
  of the divisor. A zero divisor raises \<^verbatim>\<open>ZeroDivisionError\<close>; the only divisor in the program
  is \<^verbatim>\<open>2 * math.pi\<close>, which is not zero, so that branch is not part of this definition. The
  operation in binary64 is \<open>py_float_rem\<close> below; lemma \<open>py_float_rem_float_mod\<close> says where the
  two agree and where the binary64 result is this one rounded.
\<close>

definition float_mod :: "real \<Rightarrow> real \<Rightarrow> real" where
  "float_mod x m = x - m * of_int \<lfloor>x / m\<rfloor>"

text \<open>
  A Python \<^verbatim>\<open>str\<close> is a sequence of code points. Every code point in the program's
  literals is below 256, so a \<^typ>\<open>char\<close> holds one code point: e with grave accent
  (U+00E8) is \<^term>\<open>CHR 0xE8\<close> and e with acute accent (U+00E9) is \<^term>\<open>CHR 0xE9\<close>.
\<close>

definition digit_char :: "nat \<Rightarrow> char" where
  "digit_char d = ''0123456789'' ! d"

text \<open>\<^verbatim>\<open>str(n)\<close> for an integer, as the f-strings format \<^verbatim>\<open>{self.Z}\<close> and the counts.\<close>

function str_nat :: "nat \<Rightarrow> string" where
  "str_nat n = (if n < 10 then [digit_char n] else str_nat (n div 10) @ [digit_char (n mod 10)])"
  by pat_completeness auto
termination
  by (relation "measure (\<lambda>n. n)") auto

definition str_int :: "int \<Rightarrow> string" where
  "str_int i = (if i < 0 then CHR ''-'' # str_nat (nat (- i)) else str_nat (nat i))"

text \<open>\<^verbatim>\<open>sep.join(lines)\<close>.\<close>

fun str_join :: "string \<Rightarrow> string list \<Rightarrow> string" where
  "str_join sep [] = []"
| "str_join sep [l] = l"
| "str_join sep (l # l' # ls) = l @ sep @ str_join sep (l' # ls)"

text \<open>
  The exceptions that can travel through the program.
  \<^verbatim>\<open>KeyError\<close> is what the subscript \<^verbatim>\<open>shell_counts[shell]\<close> raises on a missing key;
  \<^verbatim>\<open>ImportError\<close> is the failure of \<^verbatim>\<open>import matplotlib...\<close>; \<^verbatim>\<open>RenderError\<close> stands for
  any exception derived from \<^verbatim>\<open>Exception\<close> that the plotting library raises after it was
  imported; \<^verbatim>\<open>ZeroDivisionError\<close> and \<^verbatim>\<open>OverflowError\<close> are those of float arithmetic;
  \<^verbatim>\<open>UnicodeEncodeError\<close> is raised by \<^verbatim>\<open>print\<close>; \<^verbatim>\<open>SystemExit\<close> carries an exit status.
  All but \<^verbatim>\<open>SystemExit\<close> are subclasses of \<^verbatim>\<open>Exception\<close>, which is what the two
  \<^verbatim>\<open>except Exception\<close> handlers catch. \<^verbatim>\<open>KeyboardInterrupt\<close> is not modelled.
\<close>

datatype py_exc =
  KeyError int | ImportError | RenderError | ZeroDivisionError | OverflowError
  | UnicodeEncodeError | SystemExit int


section \<open>Module constants\<close>

definition ATOM_NAME :: string where
  "ATOM_NAME = ''Oxyg'' @ [CHR 0xE8] @ ''ne''"


section \<open>Class Electron\<close>

record Electron =
  shell :: int
  angle :: real
  speed :: real

text \<open>
  \<^verbatim>\<open>Electron(shell, angle=0.0, speed=0.05)\<close>; an omitted argument is \<open>None\<close> here and takes
  the default of the signature.
\<close>

definition Electron_init :: "int \<Rightarrow> real option \<Rightarrow> real option \<Rightarrow> Electron" where
  "Electron_init sh an sp =
     \<lparr>shell = sh,
      angle = (case an of None \<Rightarrow> 0 | Some a \<Rightarrow> a),
      speed = (case sp of None \<Rightarrow> 5 / 100 | Some s \<Rightarrow> s)\<rparr>"

text \<open>
  \<^verbatim>\<open>step\<close> in exact arithmetic (\<open>Electron_step64\<close> below is \<^verbatim>\<open>step\<close> in binary64). It
  assigns \<^verbatim>\<open>self.angle\<close> and returns nothing: the model returns the electron
  after the call. The parameter defaults of \<^verbatim>\<open>step\<close>, \<^verbatim>\<open>position\<close> and \<^verbatim>\<open>positions\<close>
  (all 1.0) are values like any other: in the model the caller always passes the argument.
\<close>

definition Electron_step :: "Electron \<Rightarrow> real \<Rightarrow> Electron" where
  "Electron_step e dt = e\<lparr>angle := float_mod (angle e + speed e * dt) (2 * pi)\<rparr>"

text \<open>
  \<^verbatim>\<open>position\<close> returns a pair. The model returns the pair together with the electron after
  the call, so that what the call does to the electron is part of its result.
\<close>

definition Electron_position :: "Electron \<Rightarrow> real \<Rightarrow> (real \<times> real) \<times> Electron" where
  "Electron_position e radius_scale =
     (let r = of_int (shell e) * radius_scale;
          x = r * cos (angle e);
          y = r * sin (angle e)
      in ((x, y), e))"

section \<open>Class Atom\<close>

record Atom =
  Z :: int
  electrons :: "Electron list"

text \<open>
  The list holds the electron objects themselves. \<^verbatim>\<open>_populate_electrons\<close> creates a fresh
  object for every entry and nothing else puts an object into the list, so no two entries
  are the same object and a list of values models the list of objects.

  \<^verbatim>\<open>_populate_electrons\<close>: \<^verbatim>\<open>clear()\<close>, then two loops that append.
\<close>

definition shell1_electron :: "int \<Rightarrow> Electron" where
  "shell1_electron i =
     Electron_init 1 (Some (2 * pi * of_int i / 2)) (Some (12 / 100 + of_int (i mod 2) * (2 / 100)))"

definition shell2_electron :: "int \<Rightarrow> Electron" where
  "shell2_electron i =
     Electron_init 2 (Some (2 * pi * of_int i / 6)) (Some (7 / 100 + of_int (i mod 3) * (1 / 100)))"

fun append_loop :: "(int \<Rightarrow> Electron) \<Rightarrow> int list \<Rightarrow> Electron list \<Rightarrow> Electron list" where
  "append_loop mk [] es = es"
| "append_loop mk (i # is) es = append_loop mk is (es @ [mk i])"

definition range_py :: "nat \<Rightarrow> int list" where
  "range_py n = map int [0..<n]"

definition Atom_populate_electrons :: "Atom \<Rightarrow> Atom" where
  "Atom_populate_electrons a =
     (let es0 = [];
          es1 = append_loop shell1_electron (range_py 2) es0;
          es2 = append_loop shell2_electron (range_py 6) es1
      in a\<lparr>electrons := es2\<rparr>)"

definition Atom_init :: "int \<Rightarrow> Atom" where
  "Atom_init z = Atom_populate_electrons \<lparr>Z = z, electrons = []\<rparr>"

text \<open>\<^verbatim>\<open>Atom()\<close>: the default of the parameter is 8.\<close>

definition Atom_default :: Atom where
  "Atom_default = Atom_init 8"

definition Atom_step :: "Atom \<Rightarrow> real \<Rightarrow> Atom" where
  "Atom_step a dt = a\<lparr>electrons := map (\<lambda>e. Electron_step e dt) (electrons a)\<rparr>"

text \<open>
  \<^verbatim>\<open>positions\<close> calls \<^verbatim>\<open>position\<close> on every electron in list order. The atom after the
  call holds the electrons after their calls.
\<close>

definition Atom_positions :: "Atom \<Rightarrow> real \<Rightarrow> (real \<times> real) list \<times> Atom" where
  "Atom_positions a radius_scale =
     (let rs = map (\<lambda>e. Electron_position e radius_scale) (electrons a)
      in (map fst rs, a\<lparr>electrons := map snd rs\<rparr>))"

text \<open>
  \<^verbatim>\<open>summary\<close>. The dictionary \<^verbatim>\<open>shell_counts\<close> is an association list in insertion order
  (a new key goes to the end, an existing key keeps its place), \<^verbatim>\<open>.get(k, 0)\<close> is
  \<open>dict_get\<close>, \<^verbatim>\<open>sorted(shell_counts)\<close> sorts the keys, and the subscript
  \<^verbatim>\<open>shell_counts[shell]\<close> raises \<^verbatim>\<open>KeyError\<close> on a missing key.
\<close>

definition dict_get :: "(int \<times> int) list \<Rightarrow> int \<Rightarrow> int \<Rightarrow> int" where
  "dict_get d k dflt = (case map_of d k of None \<Rightarrow> dflt | Some v \<Rightarrow> v)"

fun count_shells :: "Electron list \<Rightarrow> (int \<times> int) list \<Rightarrow> (int \<times> int) list" where
  "count_shells [] d = d"
| "count_shells (e # es) d =
     count_shells es (AList.update (shell e) (dict_get d (shell e) 0 + 1) d)"

definition shell_line :: "int \<Rightarrow> int \<Rightarrow> string" where
  "shell_line sh n =
     ''  couche '' @ str_int sh @ '': '' @ str_int n @ '' '' @ [CHR 0xE9] @ ''lectrons''"

fun shell_lines :: "(int \<times> int) list \<Rightarrow> int list \<Rightarrow> string list \<Rightarrow> py_exc + string list" where
  "shell_lines d [] lines = Inr lines"
| "shell_lines d (sh # shs) lines =
     (case map_of d sh of
        None \<Rightarrow> Inl (KeyError sh)
      | Some n \<Rightarrow> shell_lines d shs (lines @ [shell_line sh n]))"

definition summary_header :: "Atom \<Rightarrow> string list" where
  "summary_header a =
     [''Atome : '' @ ATOM_NAME @ '' (Z='' @ str_int (Z a) @ '')'',
      ''Configuration (approx.): 1s2 2s2 2p4 -> total 8 '' @ [CHR 0xE9] @ ''lectrons'',
      ''Nombre d'' @ [CHR 0x27] @ [CHR 0xE9] @ ''lectrons: '' @ str_int (int (length (electrons a)))]"

text \<open>The list \<^verbatim>\<open>lines\<close> when \<^verbatim>\<open>summary\<close> reaches its \<^verbatim>\<open>return\<close>, or the exception raised before.\<close>

definition Atom_summary_lines :: "Atom \<Rightarrow> py_exc + string list" where
  "Atom_summary_lines a =
     (let lines = summary_header a;
          shell_counts = count_shells (electrons a) []
      in shell_lines shell_counts (sort (map fst shell_counts)) lines)"

definition Atom_summary :: "Atom \<Rightarrow> (py_exc + string) \<times> Atom" where
  "Atom_summary a =
     (case Atom_summary_lines a of
        Inl ex \<Rightarrow> (Inl ex, a)
      | Inr lines \<Rightarrow> (Inr (str_join [CHR 0x0A] lines), a))"

section \<open>Calls on an atom\<close>

text \<open>
  The methods a caller can invoke on an atom, and the atom after a sequence of calls.
  Return values are dropped here; an atom is reachable when it is
  \<open>after_calls (Atom_init z) cs\<close> for some \<open>z\<close> and \<open>cs\<close>.
\<close>

datatype call = Call_step real | Call_summary | Call_positions real | Call_populate_electrons

fun after_call :: "Atom \<Rightarrow> call \<Rightarrow> Atom" where
  "after_call a (Call_step dt) = Atom_step a dt"
| "after_call a Call_summary = snd (Atom_summary a)"
| "after_call a (Call_positions radius_scale) = snd (Atom_positions a radius_scale)"
| "after_call a Call_populate_electrons = Atom_populate_electrons a"

definition after_calls :: "Atom \<Rightarrow> call list \<Rightarrow> Atom" where
  "after_calls a cs = foldl after_call a cs"


section \<open>The two modes and \<^verbatim>\<open>main\<close>\<close>










text \<open>The callback \<^verbatim>\<open>update(frame)\<close>: one step, then the positions handed to the plot.\<close>

definition update :: "Atom \<Rightarrow> Atom" where
  "update atom = (let atom1 = Atom_step atom 1 in snd (Atom_positions atom1 (15 / 10)))"






section \<open>Observations used in the statements\<close>

text \<open>The number of electrons of an atom with \<^verbatim>\<open>shell == s\<close>.\<close>

definition shell_count :: "Atom \<Rightarrow> int \<Rightarrow> nat" where
  "shell_count a s = length (filter (\<lambda>e. shell e = s) (electrons a))"

section \<open>Line 32 in binary64 arithmetic\<close>

text \<open>
  The sections above read the arithmetic of the program in exact real arithmetic. The
  interpreter computes line 32,
  \<^verbatim>\<open>self.angle = (self.angle + self.speed * dt) % (2 * math.pi)\<close>, in IEEE 754 binary64
  with rounding to nearest, ties to even. This section models that computation.

  A \<open>double\<close> is a finite value, an infinity or NaN. \<open>Fin x\<close> is a double when \<open>x\<close> is
  representable; every operation below returns a representable value when its operands
  are. The two zeros are one value \<open>Fin 0\<close>: the program never divides by a zero and never
  prints the sign of an angle, and \<^verbatim>\<open>-0.0 >= 0\<close> and \<^verbatim>\<open>-0.0 == 0.0\<close> hold in Python.
\<close>

datatype double = Fin real | PInf | NInf | NaN

definition round_half_even :: "real \<Rightarrow> int" where
  "round_half_even q =
     (let f = \<lfloor>q\<rfloor>; d = q - of_int f
      in if d < 1 / 2 then f else if 1 / 2 < d then f + 1 else if even f then f else f + 1)"

text \<open>
  The exponent of the last place of the binary64 grid around \<open>x\<close>: 53 significant bits, and
  \<open>2\<^sup>-\<^sup>1\<^sup>0\<^sup>7\<^sup>4\<close> for the subnormal numbers.
\<close>

definition ulp_exponent :: "real \<Rightarrow> int" where
  "ulp_exponent x = max (\<lfloor>log 2 \<bar>x\<bar>\<rfloor> - 52) (- 1074)"

text \<open>
  Rounding of an exact result: to the nearest grid point, ties to even; a rounded
  magnitude of \<open>2\<^sup>1\<^sup>0\<^sup>2\<^sup>4\<close> or more overflows to an infinity.
\<close>

definition fl_round :: "real \<Rightarrow> double" where
  "fl_round x =
     (if x = 0 then Fin 0
      else
        (let e = ulp_exponent x;
             y = of_int (round_half_even (x / 2 powi e)) * 2 powi e
         in if 2 ^ 1024 \<le> y then PInf else if y \<le> - (2 ^ 1024) then NInf else Fin y))"

definition is_negative :: "double \<Rightarrow> bool" where
  "is_negative d = (case d of Fin a \<Rightarrow> a < 0 | NInf \<Rightarrow> True | _ \<Rightarrow> False)"

text \<open>\<^verbatim>\<open>a + b\<close> and \<^verbatim>\<open>a * b\<close> on floats.\<close>

definition fl_add :: "double \<Rightarrow> double \<Rightarrow> double" where
  "fl_add a b =
     (case (a, b) of
        (NaN, _) \<Rightarrow> NaN
      | (_, NaN) \<Rightarrow> NaN
      | (Fin x, Fin y) \<Rightarrow> fl_round (x + y)
      | (PInf, NInf) \<Rightarrow> NaN
      | (NInf, PInf) \<Rightarrow> NaN
      | (PInf, _) \<Rightarrow> PInf
      | (_, PInf) \<Rightarrow> PInf
      | _ \<Rightarrow> NInf)"

definition fl_mul :: "double \<Rightarrow> double \<Rightarrow> double" where
  "fl_mul a b =
     (case (a, b) of
        (NaN, _) \<Rightarrow> NaN
      | (_, NaN) \<Rightarrow> NaN
      | (Fin x, Fin y) \<Rightarrow> fl_round (x * y)
      | _ \<Rightarrow>
          if a = Fin 0 \<or> b = Fin 0 then NaN
          else if is_negative a = is_negative b then PInf else NInf)"

text \<open>
  The C function \<^verbatim>\<open>fmod\<close> for a divisor that is not zero: the exact remainder of the
  division truncated towards zero, NaN for an infinite dividend, the dividend itself for
  an infinite divisor.
\<close>

definition trunc_toward_zero :: "real \<Rightarrow> int" where
  "trunc_toward_zero q = (if 0 \<le> q then \<lfloor>q\<rfloor> else \<lceil>q\<rceil>)"

definition c_fmod :: "double \<Rightarrow> double \<Rightarrow> double" where
  "c_fmod v w =
     (case (v, w) of
        (NaN, _) \<Rightarrow> NaN
      | (_, NaN) \<Rightarrow> NaN
      | (PInf, _) \<Rightarrow> NaN
      | (NInf, _) \<Rightarrow> NaN
      | (Fin x, Fin m) \<Rightarrow> Fin (x - m * of_int (trunc_toward_zero (x / m)))
      | (Fin x, _) \<Rightarrow> Fin x)"

text \<open>
  \<^verbatim>\<open>v % w\<close> on floats, as the interpreter's \<^verbatim>\<open>float_rem\<close> computes it: \<^verbatim>\<open>fmod\<close>, then the
  divisor is added when the remainder is not zero and its sign differs from the divisor's.
  A NaN remainder is "not zero" and compares false with 0. A zero remainder gets the sign
  of the divisor.
\<close>

definition py_float_rem :: "double \<Rightarrow> double \<Rightarrow> py_exc + double" where
  "py_float_rem v w =
     (if w = Fin 0 then Inl ZeroDivisionError
      else
        (let md = c_fmod v w
         in if md \<noteq> Fin 0
            then (if is_negative w \<noteq> is_negative md then Inr (fl_add md w) else Inr md)
            else Inr (Fin 0)))"

text \<open>\<^verbatim>\<open>math.pi\<close> is the double \<^verbatim>\<open>0x400921FB54442D18\<close>.\<close>

definition math_pi :: double where
  "math_pi = Fin (884279719003555 / 2 ^ 48)"

text \<open>
  An argument \<^verbatim>\<open>dt\<close> is a float or an int (\<^verbatim>\<open>update\<close> calls \<^verbatim>\<open>atom.step(dt=1)\<close>). In
  \<^verbatim>\<open>self.speed * dt\<close> an int is converted to a float first: rounded to nearest, ties to
  even, and \<^verbatim>\<open>OverflowError\<close> when it is too large for a float.
\<close>

datatype py_number = PyFloat double | PyInt int

definition to_double :: "py_number \<Rightarrow> py_exc + double" where
  "to_double n =
     (case n of
        PyFloat d \<Rightarrow> Inr d
      | PyInt i \<Rightarrow> (case fl_round (of_int i) of Fin y \<Rightarrow> Inr (Fin y) | _ \<Rightarrow> Inl OverflowError))"

record Electron64 =
  shell64 :: int
  angle64 :: double
  speed64 :: double

definition Electron_step64 :: "Electron64 \<Rightarrow> py_number \<Rightarrow> py_exc + Electron64" where
  "Electron_step64 e dt =
     (case to_double dt of
        Inl ex \<Rightarrow> Inl ex
      | Inr d \<Rightarrow>
          (case py_float_rem (fl_add (angle64 e) (fl_mul (speed64 e) d))
                  (fl_mul (Fin 2) math_pi) of
             Inl ex \<Rightarrow> Inl ex
           | Inr a \<Rightarrow> Inr (e\<lparr>angle64 := a\<rparr>)))"


text \<open>
  Python's \<^verbatim>\<open>0 <= a <= 2 * math.pi\<close>, \<^verbatim>\<open>0 <= a < 2 * math.pi\<close> and \<^verbatim>\<open>math.isfinite(a)\<close>.
  Every comparison with NaN is false.
\<close>

definition two_pi64 :: real where
  "two_pi64 = 884279719003555 / 2 ^ 47"

definition within_turn :: "double \<Rightarrow> bool" where
  "within_turn d = (case d of Fin a \<Rightarrow> 0 \<le> a \<and> a \<le> two_pi64 | _ \<Rightarrow> False)"

definition below_turn :: "double \<Rightarrow> bool" where
  "below_turn d = (case d of Fin a \<Rightarrow> 0 \<le> a \<and> a < two_pi64 | _ \<Rightarrow> False)"

definition is_finite :: "double \<Rightarrow> bool" where
  "is_finite d = (case d of Fin a \<Rightarrow> True | _ \<Rightarrow> False)"

section \<open>Angle normalisation in exact arithmetic\<close>

lemma float_mod_nonneg: "0 < m \<Longrightarrow> 0 \<le> float_mod x m"
  unfolding float_mod_def
  using floor_divide_lower [of m x] by (simp add: algebra_simps)

lemma float_mod_less: "0 < m \<Longrightarrow> float_mod x m < m"
  unfolding float_mod_def
  using floor_divide_upper [of m x] by (simp add: algebra_simps)

lemma float_mod_add_left:
  assumes m: "m \<noteq> 0"
  shows "float_mod (float_mod x m + y) m = float_mod (x + y) m"
proof -
  let ?k = "\<lfloor>x / m\<rfloor>"
  have "(x - m * of_int ?k + y) / m = (x + y) / m - of_int ?k"
    using m by (simp add: field_simps)
  then have fl: "\<lfloor>(x - m * of_int ?k + y) / m\<rfloor> = \<lfloor>(x + y) / m\<rfloor> - ?k"
    by simp
  have "float_mod (float_mod x m + y) m
      = (x - m * of_int ?k + y) - m * of_int \<lfloor>(x - m * of_int ?k + y) / m\<rfloor>"
    by (simp only: float_mod_def)
  also have "\<dots> = (x - m * of_int ?k + y) - m * of_int (\<lfloor>(x + y) / m\<rfloor> - ?k)"
    by (simp only: fl)
  also have "\<dots> = (x + y) - m * of_int \<lfloor>(x + y) / m\<rfloor>"
    by (simp add: algebra_simps)
  finally show ?thesis
    by (simp only: float_mod_def)
qed



lemma angle_after_step:
  "0 \<le> angle (Electron_step e dt)" "angle (Electron_step e dt) < 2 * pi"
  by (simp_all add: Electron_step_def float_mod_nonneg float_mod_less)


lemma Electron_step_twice: "Electron_step (Electron_step e a) b = Electron_step e (a + b)"
proof -
  have "float_mod (float_mod (angle e + speed e * a) (2 * pi) + speed e * b) (2 * pi)
      = float_mod (angle e + speed e * a + speed e * b) (2 * pi)"
    by (rule float_mod_add_left) simp
  also have "angle e + speed e * a + speed e * b = angle e + speed e * (a + b)"
    by (simp add: algebra_simps)
  finally show ?thesis
    by (simp add: Electron_step_def)
qed


section \<open>Binary64: rounding and the remainder\<close>

lemma round_half_even_le: "q \<le> of_int K \<Longrightarrow> round_half_even q \<le> K"
proof -
  assume q: "q \<le> of_int K"
  show ?thesis
  proof (cases "q = of_int K")
    case True
    then show ?thesis by (simp add: round_half_even_def)
  next
    case False
    with q have "q < of_int K" by simp
    then have "\<lfloor>q\<rfloor> < K" by (simp add: floor_less_iff)
    then show ?thesis by (simp add: round_half_even_def Let_def)
  qed
qed

lemma round_half_even_ge: "of_int K \<le> q \<Longrightarrow> K \<le> round_half_even q"
proof -
  assume "of_int K \<le> q"
  then have "K \<le> \<lfloor>q\<rfloor>" by (simp add: le_floor_iff)
  then show ?thesis by (simp add: round_half_even_def Let_def)
qed

lemma round_half_even_of_int: "round_half_even (of_int K) = K"
  by (simp add: round_half_even_def)

lemma ulp_exponent_eq:
  assumes "2 powi k \<le> \<bar>x\<bar>" and "\<bar>x\<bar> < 2 powi (k + 1)"
  shows "ulp_exponent x = max (k - 52) (- 1074)"
proof -
  have "0 < (2 :: real) powi k"
    by (simp add: zero_less_power_int)
  with assms(1) have pos: "0 < \<bar>x\<bar>"
    by linarith
  have lo: "(2 :: real) powr real_of_int k = 2 powi k"
    by (rule powr_real_of_int') simp_all
  have hi: "(2 :: real) powr real_of_int (k + 1) = 2 powi (k + 1)"
    by (rule powr_real_of_int') simp_all
  have "2 powr real_of_int k \<le> \<bar>x\<bar> \<and> \<bar>x\<bar> < 2 powr real_of_int (k + 1)"
    using assms by (simp only: lo hi)
  then have "\<lfloor>log 2 \<bar>x\<bar>\<rfloor> = k"
    using pos by (subst floor_log_eq_powr_iff) simp_all
  then show ?thesis by (simp add: ulp_exponent_def)
qed

lemma ulp_exponent_below_8:
  assumes "0 < y" and "y < 8"
  shows "ulp_exponent y \<le> - 50"
proof -
  have "log 2 y < log 2 8"
    using assms by simp
  also have "log 2 8 = (3 :: real)"
    using log_pow_cancel [of 2 3] by simp
  finally have "\<lfloor>log 2 y\<rfloor> < 3"
    by (simp add: floor_less_iff)
  then show ?thesis
    using assms by (simp add: ulp_exponent_def)
qed

lemma two_pi64_on_grid:
  assumes "e \<le> - 50"
  shows "of_int (7074237752028440 * 2 ^ nat (- 50 - e)) * 2 powi e = two_pi64"
proof -
  have "(2 :: real) ^ nat (- 50 - e) = 2 powi (- 50 - e)"
    using assms by (simp add: power_int_def)
  moreover have "(2 :: real) powi (- 50 - e) * 2 powi e = 2 powi (- 50)"
    by (simp add: power_int_add [symmetric])
  ultimately have h: "(2 :: real) ^ nat (- 50 - e) * 2 powi e = 2 powi (- 50)"
    by simp
  have "of_int (7074237752028440 * 2 ^ nat (- 50 - e)) * 2 powi e
      = 7074237752028440 * ((2 :: real) ^ nat (- 50 - e) * 2 powi e)"
    by simp
  also have "\<dots> = 7074237752028440 * 2 powi (- 50)"
    by (simp only: h)
  also have "\<dots> = two_pi64"
    by (simp add: two_pi64_def)
  finally show ?thesis .
qed

lemma fl_round_within_turn:
  assumes "0 < y" and "y < two_pi64"
  shows "\<exists>a. fl_round y = Fin a \<and> 0 \<le> a \<and> a \<le> two_pi64"
proof -
  define e where "e = ulp_exponent y"
  define K :: int where "K = 7074237752028440 * 2 ^ nat (- 50 - e)"
  define a where "a = of_int (round_half_even (y / 2 powi e)) * (2 :: real) powi e"
  have p: "0 < (2 :: real) powi e"
    by (simp add: zero_less_power_int)
  have "y < 8"
    using assms(2) by (simp add: two_pi64_def)
  then have "e \<le> - 50"
    unfolding e_def using assms(1) by (rule ulp_exponent_below_8 [rotated])
  then have grid: "of_int K * 2 powi e = two_pi64"
    unfolding K_def by (rule two_pi64_on_grid)
  have "y / 2 powi e < two_pi64 / 2 powi e"
    using assms(2) p by (simp add: divide_strict_right_mono)
  also have "two_pi64 / 2 powi e = of_int K"
    using grid p by (simp add: field_simps)
  finally have "round_half_even (y / 2 powi e) \<le> K"
    by (intro round_half_even_le) simp
  then have "a \<le> of_int K * 2 powi e"
    unfolding a_def using p by (intro mult_right_mono) simp_all
  then have hi: "a \<le> two_pi64"
    by (simp add: grid)
  have "of_int 0 \<le> y / 2 powi e"
    using assms(1) p by simp
  then have "0 \<le> round_half_even (y / 2 powi e)"
    by (rule round_half_even_ge)
  then have lo: "0 \<le> a"
    unfolding a_def using p by simp
  have "two_pi64 < 2 ^ 1024"
    by (simp add: two_pi64_def)
  with hi lo have "\<not> 2 ^ 1024 \<le> a" "\<not> a \<le> - (2 ^ 1024)"
    by simp_all
  then have "fl_round y = Fin a"
    using assms(1) by (simp add: fl_round_def Let_def a_def e_def)
  with lo hi show ?thesis by blast
qed

lemma float_mod_range: "0 < m \<Longrightarrow> 0 \<le> float_mod x m \<and> float_mod x m < m"
  unfolding float_mod_def
  using floor_divide_lower [of m x] floor_divide_upper [of m x] by (simp add: algebra_simps)

text \<open>
  Python's \<^verbatim>\<open>%\<close> on finite operands with a positive divisor, against the exact remainder
  \<open>float_mod\<close>: they agree when the left operand is not negative or is a multiple of the
  divisor; for any other negative left operand \<^verbatim>\<open>%\<close> is the exact remainder rounded once.
\<close>

lemma py_float_rem_float_mod:
  assumes m: "0 < m"
  shows "py_float_rem (Fin x) (Fin m) =
           Inr (if 0 \<le> x \<or> float_mod x m = 0 then Fin (float_mod x m)
                else fl_round (float_mod x m))"
proof (cases "0 \<le> x")
  case True
  then have "0 \<le> x / m"
    using m by simp
  then have r: "x - m * of_int (trunc_toward_zero (x / m)) = float_mod x m"
    by (simp add: trunc_toward_zero_def float_mod_def)
  have "0 \<le> float_mod x m"
    using float_mod_range [OF m] by simp
  then show ?thesis
    using True m by (simp add: py_float_rem_def c_fmod_def r is_negative_def Let_def)
next
  case False
  then have neg: "x / m < 0"
    using m by (simp add: divide_neg_pos)
  show ?thesis
  proof (cases "float_mod x m = 0")
    case True
    then have "x / m = of_int \<lfloor>x / m\<rfloor>"
      using m by (simp add: float_mod_def field_simps)
    then have "\<lceil>x / m\<rceil> = \<lfloor>x / m\<rfloor>"
      by (metis ceiling_of_int)
    then have "x - m * of_int (trunc_toward_zero (x / m)) = 0"
      using neg True by (simp add: trunc_toward_zero_def float_mod_def)
    then show ?thesis
      using True m by (simp add: py_float_rem_def c_fmod_def Let_def)
  next
    case nz: False
    then have "x / m \<noteq> of_int \<lfloor>x / m\<rfloor>"
      using m by (auto simp add: float_mod_def field_simps)
    then have "\<lceil>x / m\<rceil> = \<lfloor>x / m\<rfloor> + 1"
      by (metis ceiling_altdef)
    then have r: "x - m * of_int (trunc_toward_zero (x / m)) = float_mod x m - m"
      using neg by (simp add: trunc_toward_zero_def float_mod_def algebra_simps)
    have lt: "float_mod x m - m < 0"
      using float_mod_range [OF m, of x] by simp
    then have "float_mod x m - m \<noteq> 0"
      by simp
    then show ?thesis
      using False nz m lt
      by (simp add: py_float_rem_def c_fmod_def r is_negative_def Let_def fl_add_def)
  qed
qed

lemma two_pi64_pos: "0 < two_pi64"
  by (simp add: two_pi64_def)

lemma py_float_rem_two_pi:
  "\<exists>a. py_float_rem v (Fin two_pi64) = Inr a
       \<and> (if is_finite v then within_turn a else a = NaN)"
proof (cases v)
  case (Fin x)
  have range: "0 \<le> float_mod x two_pi64 \<and> float_mod x two_pi64 < two_pi64"
    using float_mod_range [OF two_pi64_pos] .
  show ?thesis
  proof (cases "0 \<le> x \<or> float_mod x two_pi64 = 0")
    case True
    then show ?thesis
      using range by (simp add: Fin py_float_rem_float_mod [OF two_pi64_pos] is_finite_def
          within_turn_def)
  next
    case False
    with range have "0 < float_mod x two_pi64" by simp
    from fl_round_within_turn [OF this] range
    obtain a where "fl_round (float_mod x two_pi64) = Fin a" "0 \<le> a" "a \<le> two_pi64"
      by blast
    then show ?thesis
      using False by (simp add: Fin py_float_rem_float_mod [OF two_pi64_pos] is_finite_def
          within_turn_def)
  qed
next
  case PInf
  then show ?thesis
    by (simp add: py_float_rem_def c_fmod_def is_negative_def is_finite_def two_pi64_def)
next
  case NInf
  then show ?thesis
    by (simp add: py_float_rem_def c_fmod_def is_negative_def is_finite_def two_pi64_def)
next
  case NaN
  then show ?thesis
    by (simp add: py_float_rem_def c_fmod_def is_negative_def is_finite_def two_pi64_def)
qed

lemma fl_round_exact:
  assumes "2 powi k \<le> \<bar>x\<bar>" and "\<bar>x\<bar> < 2 powi (k + 1)" and "k \<le> 1023"
    and "x / 2 powi (max (k - 52) (- 1074)) = of_int n"
  shows "fl_round x = Fin x"
proof -
  let ?e = "max (k - 52) (- 1074)"
  have e: "ulp_exponent x = ?e"
    using assms(1,2) by (rule ulp_exponent_eq)
  have p: "0 < (2 :: real) powi ?e"
    by (simp add: zero_less_power_int)
  have "0 < (2 :: real) powi k"
    by (simp add: zero_less_power_int)
  with assms(1) have "0 < \<bar>x\<bar>"
    by linarith
  then have "x \<noteq> 0"
    by simp
  have y: "of_int (round_half_even (x / 2 powi ?e)) * 2 powi ?e = x"
    using assms(4) p by (simp add: round_half_even_of_int field_simps)
  have "(2 :: real) powi (k + 1) \<le> 2 powi 1024"
    using assms(3) by (intro power_int_increasing) simp_all
  then have "\<bar>x\<bar> < 2 ^ 1024"
    using assms(2) by simp
  then have "\<not> 2 ^ 1024 \<le> x" "\<not> x \<le> - (2 ^ 1024)"
    by linarith+
  then show ?thesis
    using \<open>x \<noteq> 0\<close> by (simp add: fl_round_def e y Let_def)
qed

lemma two_times_math_pi: "fl_mul (Fin 2) math_pi = Fin two_pi64"
proof -
  have "fl_round (2 * (884279719003555 / 2 ^ 48)) = Fin (2 * (884279719003555 / 2 ^ 48))"
    by (rule fl_round_exact [where k = 2 and n = 7074237752028440]) simp_all
  then show ?thesis
    by (simp add: fl_mul_def math_pi_def two_pi64_def)
qed

lemma round_half_even_near: "\<bar>q - of_int K\<bar> < 1 / 2 \<Longrightarrow> round_half_even q = K"
proof -
  assume near: "\<bar>q - of_int K\<bar> < 1 / 2"
  show ?thesis
  proof (cases "of_int K \<le> q")
    case True
    with near have "\<lfloor>q\<rfloor> = K"
      by (intro floor_unique) (simp_all add: abs_less_iff)
    with near True show ?thesis
      by (simp add: round_half_even_def Let_def abs_less_iff)
  next
    case False
    with near have "\<lfloor>q\<rfloor> = K - 1"
      by (intro floor_unique) (simp_all add: abs_less_iff)
    with near False show ?thesis
      by (simp add: round_half_even_def Let_def abs_less_iff)
  qed
qed

lemma fl_round_eval:
  assumes "2 powi k \<le> \<bar>x\<bar>" and "\<bar>x\<bar> < 2 powi (k + 1)"
    and "\<bar>x / 2 powi (max (k - 52) (- 1074)) - of_int K\<bar> < 1 / 2"
    and "\<bar>of_int K * 2 powi (max (k - 52) (- 1074))\<bar> < (2 :: real) ^ 1024"
  shows "fl_round x = Fin (of_int K * 2 powi (max (k - 52) (- 1074)))"
proof -
  let ?e = "max (k - 52) (- 1074)"
  have e: "ulp_exponent x = ?e"
    using assms(1,2) by (rule ulp_exponent_eq)
  have "0 < (2 :: real) powi k"
    by (simp add: zero_less_power_int)
  with assms(1) have "0 < \<bar>x\<bar>"
    by linarith
  then have "x \<noteq> 0"
    by simp
  have r: "round_half_even (x / 2 powi ?e) = K"
    using assms(3) by (rule round_half_even_near)
  have "\<not> 2 ^ 1024 \<le> of_int K * (2 :: real) powi ?e"
    "\<not> of_int K * (2 :: real) powi ?e \<le> - (2 ^ 1024)"
    using assms(4) by linarith+
  then show ?thesis
    using \<open>x \<noteq> 0\<close> by (simp add: fl_round_def e r Let_def)
qed

lemma fl_round_just_below_turn:
  assumes "- (1 / 2 ^ 60) \<le> t" and "t < 0"
  shows "fl_round (two_pi64 + t) = Fin two_pi64"
proof -
  have "fl_round (two_pi64 + t)
      = Fin (of_int 7074237752028440 * 2 powi (max (2 - 52) (- 1074)))"
  proof (rule fl_round_eval)
    show "2 powi 2 \<le> \<bar>two_pi64 + t\<bar>"
      using assms by (simp add: two_pi64_def)
    show "\<bar>two_pi64 + t\<bar> < 2 powi (2 + 1)"
      using assms by (simp add: two_pi64_def)
    have "two_pi64 * 2 ^ 50 = 7074237752028440"
      by (simp add: two_pi64_def)
    then have "(two_pi64 + t) * 2 ^ 50 - 7074237752028440 = t * 2 ^ 50"
      by (simp only: distrib_right)
    moreover have "(two_pi64 + t) / 2 powi (max (2 - 52) (- 1074)) = (two_pi64 + t) * 2 ^ 50"
      by simp
    moreover have "\<bar>t * 2 ^ 50\<bar> < 1 / 2"
      using assms by (simp add: abs_less_iff)
    ultimately show "\<bar>(two_pi64 + t) / 2 powi (max (2 - 52) (- 1074))
        - of_int 7074237752028440\<bar> < 1 / 2"
      by (simp only: of_int_numeral)
    show "\<bar>of_int 7074237752028440 * 2 powi (max (2 - 52) (- 1074))\<bar> < (2 :: real) ^ 1024"
      by simp
  qed
  then show ?thesis
    by (simp add: two_pi64_def)
qed

lemma float_mod_small_negative: "- m \<le> x \<Longrightarrow> x < 0 \<Longrightarrow> float_mod x m = x + m"
proof -
  assume lo: "- m \<le> x" and neg: "x < 0"
  then have m: "0 < m" by simp
  have "\<lfloor>x / m\<rfloor> = - 1"
    using lo neg m by (intro floor_unique) (simp_all add: field_simps)
  then show ?thesis
    by (simp add: float_mod_def)
qed

lemma py_float_rem_tiny_negative:
  assumes "- (1 / 2 ^ 60) \<le> t" and "t < 0"
  shows "py_float_rem (Fin t) (Fin two_pi64) = Inr (Fin two_pi64)"
proof -
  have "- two_pi64 \<le> t"
    using assms(1) by (simp add: two_pi64_def)
  then have fm: "float_mod t two_pi64 = two_pi64 + t"
    using assms(2) by (simp add: float_mod_small_negative)
  have "two_pi64 + t \<noteq> 0"
    using assms(1) by (simp add: two_pi64_def)
  then show ?thesis
    using assms
    by (simp add: py_float_rem_float_mod [OF two_pi64_pos] fm fl_round_just_below_turn)
qed

lemma Electron_step64_float:
  "\<exists>a. Electron_step64 e (PyFloat d) = Inr (e\<lparr>angle64 := a\<rparr>)
       \<and> (if is_finite (fl_add (angle64 e) (fl_mul (speed64 e) d))
            then within_turn a else a = NaN)"
proof -
  obtain a where "py_float_rem (fl_add (angle64 e) (fl_mul (speed64 e) d)) (Fin two_pi64) = Inr a"
    and "if is_finite (fl_add (angle64 e) (fl_mul (speed64 e) d)) then within_turn a else a = NaN"
    using py_float_rem_two_pi by blast
  then show ?thesis
    by (auto simp add: Electron_step64_def to_double_def two_times_math_pi)
qed




lemma fl_round_product:
  "fl_round (1080863910568919 / 2 ^ 53 * (- 6646139978924579 / 2 ^ 119))
     = Fin (- 1595073594941899 / 2 ^ 120)"
proof -
  have "fl_round (1080863910568919 / 2 ^ 53 * (- 6646139978924579 / 2 ^ 119))
      = Fin (of_int (- 6380294379767596) * 2 powi (max (- 70 - 52) (- 1074)))"
    by (rule fl_round_eval) (simp_all add: abs_less_iff)
  then show ?thesis
    by simp
qed

lemma fl_round_rounded_product:
  "fl_round (- 1595073594941899 / 2 ^ 120) = Fin (- 1595073594941899 / 2 ^ 120)"
  by (rule fl_round_exact [where k = "- 70" and n = "- 6380294379767596"]) simp_all

lemma fl_round_overflow: "fl_round (2 ^ 1024) = PInf"
proof -
  have e: "ulp_exponent (2 ^ 1024) = 972"
    using ulp_exponent_eq [of 1024 "2 ^ 1024"] by simp
  have "(2 :: real) ^ 1024 / 2 powi 972 = of_int (2 ^ 52)"
    by simp
  then have r: "round_half_even ((2 :: real) ^ 1024 / 2 powi 972) = 2 ^ 52"
    by (simp only: round_half_even_of_int)
  have y: "of_int (2 ^ 52) * (2 :: real) powi 972 = 2 ^ 1024"
    by simp
  have "(2 :: real) ^ 1024 \<noteq> 0"
    by simp
  then show ?thesis
    unfolding fl_round_def Let_def e r y by simp
qed

lemma fl_round_one: "fl_round 1 = Fin 1"
  by (rule fl_round_exact [where k = 0 and n = "2 ^ 52"]) simp_all

lemma Electron_step64_unfold:
  "Electron_step64 e (PyFloat d) =
     (case py_float_rem (fl_add (angle64 e) (fl_mul (speed64 e) d)) (Fin two_pi64) of
        Inl ex \<Rightarrow> Inl ex
      | Inr a \<Rightarrow> Inr (e\<lparr>angle64 := a\<rparr>))"
  by (simp add: Electron_step64_def to_double_def two_times_math_pi)

lemma Electron_step64_result:
  assumes "fl_mul (speed64 e) d = p" and "fl_add (angle64 e) p = s"
    and "py_float_rem s (Fin two_pi64) = Inr a"
  shows "Electron_step64 e (PyFloat d) = Inr (e\<lparr>angle64 := a\<rparr>)"
  using assms by (simp add: Electron_step64_unfold)


lemma step64_tiny_negative_dt:
  "Electron_step64
     \<lparr>shell64 = 1, angle64 = Fin 0, speed64 = Fin (1080863910568919 / 2 ^ 53)\<rparr>
     (PyFloat (Fin (- 6646139978924579 / 2 ^ 119)))
   = Inr \<lparr>shell64 = 1, angle64 = Fin two_pi64, speed64 = Fin (1080863910568919 / 2 ^ 53)\<rparr>"
proof -
  let ?e = "\<lparr>shell64 = 1, angle64 = Fin 0, speed64 = Fin (1080863910568919 / 2 ^ 53)\<rparr>"
  have mul: "fl_mul (speed64 ?e) (Fin (- 6646139978924579 / 2 ^ 119))
      = Fin (- 1595073594941899 / 2 ^ 120)"
    using fl_round_product by (simp add: fl_mul_def)
  have add: "fl_add (angle64 ?e) (Fin (- 1595073594941899 / 2 ^ 120))
      = Fin (- 1595073594941899 / 2 ^ 120)"
    using fl_round_rounded_product by (simp add: fl_add_def)
  have rem: "py_float_rem (Fin (- 1595073594941899 / 2 ^ 120)) (Fin two_pi64)
      = Inr (Fin two_pi64)"
    by (rule py_float_rem_tiny_negative) simp_all
  have "Electron_step64 ?e (PyFloat (Fin (- 6646139978924579 / 2 ^ 119)))
      = Inr (?e\<lparr>angle64 := Fin two_pi64\<rparr>)"
    using mul add rem by (rule Electron_step64_result)
  then show ?thesis
    by simp
qed


lemma not_below_turn: "\<not> below_turn (Fin two_pi64)"
  by (simp add: below_turn_def)

lemma Electron_step64_int:
  "Electron_step64 e (PyInt i) =
     (case fl_round (of_int i) of
        Fin y \<Rightarrow> Electron_step64 e (PyFloat (Fin y))
      | PInf \<Rightarrow> Inl OverflowError
      | NInf \<Rightarrow> Inl OverflowError
      | NaN \<Rightarrow> Inl OverflowError)"
  by (simp add: Electron_step64_def to_double_def split: double.split)




text \<open>
  Claim C10 as stated fails in the arithmetic the program runs in. For the first electron
  of a default atom (angle 0.0, speed 0.12) and the negative \<^verbatim>\<open>dt = -1e-20\<close>, the left
  operand of \<^verbatim>\<open>%\<close> is a small negative number and the result is the divisor
  \<^verbatim>\<open>2 * math.pi\<close> itself, not a number below it. And \<^verbatim>\<open>step\<close> is not total: for the int
  \<^verbatim>\<open>dt = 2 ** 1024\<close> the product \<^verbatim>\<open>self.speed * dt\<close> raises \<^verbatim>\<open>OverflowError\<close>.
\<close>

theorem negative_dt_reaches_modulus:
  "Electron_step64
     \<lparr>shell64 = 1, angle64 = Fin 0, speed64 = Fin (1080863910568919 / 2 ^ 53)\<rparr>
     (PyFloat (Fin (- 6646139978924579 / 2 ^ 119)))
   = Inr \<lparr>shell64 = 1, angle64 = Fin two_pi64, speed64 = Fin (1080863910568919 / 2 ^ 53)\<rparr>
   \<and> \<not> below_turn (Fin two_pi64)
   \<and> Electron_step64
       \<lparr>shell64 = 1, angle64 = Fin 0, speed64 = Fin (1080863910568919 / 2 ^ 53)\<rparr>
       (PyInt (2 ^ 1024))
     = Inl OverflowError"
proof -
  have "fl_round (of_int (2 ^ 1024)) = PInf"
    using fl_round_overflow by simp
  then have "Electron_step64
       \<lparr>shell64 = 1, angle64 = Fin 0, speed64 = Fin (1080863910568919 / 2 ^ 53)\<rparr>
       (PyInt (2 ^ 1024)) = Inl OverflowError"
    by (simp only: Electron_step64_int double.case)
  with step64_tiny_negative_dt not_below_turn show ?thesis
    by (intro conjI)
qed

text \<open>
  Claim C10 as amended. For every electron and every float \<^verbatim>\<open>dt\<close>, negative ones
  included, \<^verbatim>\<open>step(dt)\<close> raises nothing and changes only the angle: the new angle satisfies
  \<^verbatim>\<open>0 <= angle <= 2 * math.pi\<close> (the bound included) when \<^verbatim>\<open>self.angle + self.speed * dt\<close>
  is finite, and is NaN when it is not. For an int \<^verbatim>\<open>dt\<close>, \<^verbatim>\<open>step(dt)\<close> raises
  \<^verbatim>\<open>OverflowError\<close> exactly when the int is too large for a float, and otherwise does what
  it does for the float the int converts to; \<^verbatim>\<open>step(1)\<close> is \<^verbatim>\<open>step(1.0)\<close>.
\<close>

theorem Electron_step64_any_dt:
  "(\<exists>a. Electron_step64 e (PyFloat d) = Inr (e\<lparr>angle64 := a\<rparr>)
        \<and> (if is_finite (fl_add (angle64 e) (fl_mul (speed64 e) d))
             then within_turn a else a = NaN))
   \<and> (Electron_step64 e (PyInt i) = Inl OverflowError) = (\<not> is_finite (fl_round (of_int i)))
   \<and> (case fl_round (of_int i) of
         Fin y \<Rightarrow> Electron_step64 e (PyInt i) = Electron_step64 e (PyFloat (Fin y))
       | _ \<Rightarrow> True)
   \<and> Electron_step64 e (PyInt 1) = Electron_step64 e (PyFloat (Fin 1))"
proof (intro conjI)
  show "\<exists>a. Electron_step64 e (PyFloat d) = Inr (e\<lparr>angle64 := a\<rparr>)
        \<and> (if is_finite (fl_add (angle64 e) (fl_mul (speed64 e) d))
             then within_turn a else a = NaN)"
    by (rule Electron_step64_float)
  show "(Electron_step64 e (PyInt i) = Inl OverflowError) = (\<not> is_finite (fl_round (of_int i)))"
  proof (cases "fl_round (of_int i)")
    case (Fin y)
    obtain a where "Electron_step64 e (PyFloat (Fin y)) = Inr (e\<lparr>angle64 := a\<rparr>)"
      using Electron_step64_float by blast
    then show ?thesis
      by (simp add: Electron_step64_int Fin is_finite_def)
  qed (simp_all add: Electron_step64_int is_finite_def)
  show "case fl_round (of_int i) of
         Fin y \<Rightarrow> Electron_step64 e (PyInt i) = Electron_step64 e (PyFloat (Fin y))
       | _ \<Rightarrow> True"
    by (simp add: Electron_step64_int split: double.split)
  have "fl_round (of_int 1) = Fin 1"
    using fl_round_one by simp
  then show "Electron_step64 e (PyInt 1) = Electron_step64 e (PyFloat (Fin 1))"
    by (simp only: Electron_step64_int double.case)
qed

section \<open>Stepping composes\<close>

text \<open>
  Claim C9. In real arithmetic \<^verbatim>\<open>step(a)\<close> followed by \<^verbatim>\<open>step(b)\<close> leaves an electron in
  the state of the single call \<^verbatim>\<open>step(a + b)\<close>, and so it is for \<^verbatim>\<open>Atom.step\<close> over all
  electrons. This holds for all real \<open>a\<close> and \<open>b\<close>, in particular for \<open>a, b \<ge> 0\<close>.
\<close>

theorem step_composes_additively:
  "Electron_step (Electron_step e a) b = Electron_step e (a + b)
   \<and> Atom_step (Atom_step atom a) b = Atom_step atom (a + b)"
  by (simp add: Atom_step_def Electron_step_twice o_def)

section \<open>Construction\<close>

lemma electrons_populated:
  "electrons (Atom_populate_electrons a) =
     [shell1_electron 0, shell1_electron 1,
      shell2_electron 0, shell2_electron 1, shell2_electron 2,
      shell2_electron 3, shell2_electron 4, shell2_electron 5]"
  by (simp add: Atom_populate_electrons_def range_py_def upt_rec)

lemma shells_populated:
  "map shell (electrons (Atom_populate_electrons a)) = [1, 1, 2, 2, 2, 2, 2, 2]"
  by (simp add: electrons_populated shell1_electron_def shell2_electron_def Electron_init_def)

lemma Z_populated: "Z (Atom_populate_electrons a) = Z a"
  by (simp add: Atom_populate_electrons_def)

text \<open>
  Claim C2. The electron sequence of a new atom, before any step, written as the
  specification gives it: the two shell-1 electrons for \<open>i = 0, 1\<close> with angle
  \<open>2\<pi>\<sqdot>i/2\<close> and speed \<open>0.12 + (i mod 2) \<times> 0.02\<close>, then the six shell-2 electrons for
  \<open>i = 0..5\<close> with angle \<open>2\<pi>\<sqdot>i/6\<close> and speed \<open>0.07 + (i mod 3) \<times> 0.01\<close>, in this order.
\<close>

theorem initial_electrons:
  "electrons (Atom_init z) =
     map (\<lambda>i. \<lparr>shell = 1, angle = 2 * pi * real i / 2,
                speed = 12 / 100 + real (i mod 2) * (2 / 100)\<rparr>) [0..<2]
     @ map (\<lambda>i. \<lparr>shell = 2, angle = 2 * pi * real i / 6,
                  speed = 7 / 100 + real (i mod 3) * (1 / 100)\<rparr>) [0..<6]"
  by (simp add: Atom_init_def electrons_populated shell1_electron_def shell2_electron_def
      Electron_init_def upt_rec)

section \<open>Positions\<close>

lemma Atom_positions_state: "snd (Atom_positions a radius_scale) = a"
  by (simp add: Atom_positions_def Let_def o_def Electron_position_def)

lemma Atom_summary_state: "snd (Atom_summary a) = a"
  by (simp add: Atom_summary_def split: sum.split)

text \<open>
  Claim C3. For every electron and every \<open>radiusScale\<close> (positive or not),
  \<^verbatim>\<open>position(radiusScale)\<close> returns the pair
  \<open>(radiusScale\<sqdot>shell\<sqdot>cos(angle), radiusScale\<sqdot>shell\<sqdot>sin(angle))\<close> and the electron after the
  call is the electron before it. For a new default atom, the first element of
  \<^verbatim>\<open>positions(1.5)\<close> is \<open>(1.5, 0)\<close>.
\<close>

theorem position_formula:
  "Electron_position e radius_scale =
     ((radius_scale * of_int (shell e) * cos (angle e),
       radius_scale * of_int (shell e) * sin (angle e)), e)
   \<and> (\<exists>rest. fst (Atom_positions Atom_default (15 / 10)) = (15 / 10, 0) # rest)"
  by (simp add: Electron_position_def Let_def mult.commute Atom_positions_def Atom_default_def
      Atom_init_def electrons_populated shell1_electron_def Electron_init_def)

text \<open>
  Claim C8. For every atom and every \<open>radiusScale\<close>, \<^verbatim>\<open>positions(radiusScale)\<close> has one
  pair per electron, the pair at index \<open>i\<close> being the position of the electron at index
  \<open>i\<close>; the atom after \<^verbatim>\<open>positions()\<close> and the atom after \<^verbatim>\<open>summary()\<close> are the atom
  before the call: atomic number and every electron's shell, angle and speed are unchanged.
\<close>

theorem positions_in_order_no_mutation:
  "length (fst (Atom_positions a radius_scale)) = length (electrons a)
   \<and> (\<forall>i < length (electrons a).
         fst (Atom_positions a radius_scale) ! i
           = fst (Electron_position (electrons a ! i) radius_scale))
   \<and> snd (Atom_positions a radius_scale) = a
   \<and> snd (Atom_summary a) = a"
  by (simp add: Atom_positions_state Atom_summary_state) (simp add: Atom_positions_def Let_def)

theorem positions_in_order_no_mutation_witness:
  "(1 :: nat) < length (electrons Atom_default)
   \<and> fst (Atom_positions Atom_default 3) ! 1 = (- 3, 0)
   \<and> snd (Atom_positions Atom_default 3) = Atom_default
   \<and> snd (Atom_summary Atom_default) = Atom_default"
proof -
  have len: "(1 :: nat) < length (electrons Atom_default)"
    by (simp add: Atom_default_def Atom_init_def electrons_populated)
  have "fst (Electron_position (electrons Atom_default ! 1) 3) = (- 3, 0)"
    by (simp add: Atom_default_def Atom_init_def electrons_populated shell1_electron_def
        Electron_init_def Electron_position_def)
  with len positions_in_order_no_mutation [of Atom_default 3] show ?thesis
    by simp
qed


section \<open>Electron counts\<close>

lemma after_calls_snoc: "after_calls a (cs @ [c]) = after_call (after_calls a cs) c"
  by (simp add: after_calls_def)

lemma shells_after_call:
  "map shell (electrons a) = [1, 1, 2, 2, 2, 2, 2, 2]
   \<Longrightarrow> map shell (electrons (after_call a c)) = [1, 1, 2, 2, 2, 2, 2, 2]"
  by (cases c)
    (simp_all add: Atom_step_def Electron_step_def o_def Atom_positions_state
      Atom_summary_state shells_populated)

lemma Z_after_call: "Z (after_call a c) = Z a"
  by (cases c) (simp_all add: Atom_step_def Atom_positions_state Atom_summary_state Z_populated)

lemma shells_after_calls:
  "map shell (electrons (after_calls (Atom_init z) cs)) = [1, 1, 2, 2, 2, 2, 2, 2]"
proof (induction cs rule: rev_induct)
  case Nil
  show ?case by (simp add: after_calls_def Atom_init_def shells_populated)
next
  case (snoc c cs)
  then show ?case by (simp only: after_calls_snoc shells_after_call)
qed

lemma Z_after_calls: "Z (after_calls (Atom_init z) cs) = z"
proof (induction cs rule: rev_induct)
  case Nil
  show ?case by (simp add: after_calls_def Atom_init_def Z_populated)
next
  case (snoc c cs)
  then show ?case by (simp only: after_calls_snoc Z_after_call)
qed

lemma shell_count_shells:
  "shell_count a s = length (filter (\<lambda>x. x = s) (map shell (electrons a)))"
  by (simp add: shell_count_def filter_map o_def)

lemma length_after_calls: "length (electrons (after_calls (Atom_init z) cs)) = 8"
proof -
  have "length (map shell (electrons (after_calls (Atom_init z) cs))) = 8"
    by (simp only: shells_after_calls) simp
  then show ?thesis by simp
qed

text \<open>
  Claim C4. For every constructor argument \<open>Z\<close>, the atom has exactly 8 electrons, 2 with
  \<^verbatim>\<open>shell == 1\<close> and 6 with \<^verbatim>\<open>shell == 2\<close>, at construction and after any sequence of
  calls of its methods; \<open>Z\<close> is only stored.
\<close>

theorem electron_counts_fixed:
  "length (electrons (after_calls (Atom_init z) cs)) = 8
   \<and> shell_count (after_calls (Atom_init z) cs) 1 = 2
   \<and> shell_count (after_calls (Atom_init z) cs) 2 = 6
   \<and> Z (after_calls (Atom_init z) cs) = z"
  by (simp add: length_after_calls Z_after_calls shell_count_shells shells_after_calls)

section \<open>The text summary\<close>

lemma no_electron_in_shell:
  "k \<notin> shell ` set es \<Longrightarrow> filter (\<lambda>e. shell e = k) es = []"
  by (induction es) auto

lemma map_of_count_shells:
  "map_of (count_shells es d) k =
     (if k \<in> shell ` set es
      then Some (dict_get d k 0 + int (length (filter (\<lambda>e. shell e = k) es)))
      else map_of d k)"
proof (induction es arbitrary: d)
  case Nil
  show ?case by simp
next
  case (Cons e es)
  show ?case
    by (simp add: Cons.IH update_conv' dict_get_def no_electron_in_shell)
qed

lemma keys_count_shells: "fst ` set (count_shells es d) = fst ` set d \<union> shell ` set es"
  by (induction es arbitrary: d) (auto simp: dom_update)

lemma distinct_count_shells:
  "distinct (map fst d) \<Longrightarrow> distinct (map fst (count_shells es d))"
  by (induction es arbitrary: d) (simp_all add: distinct_update)

lemma sorted_keys_count_shells:
  "sort (map fst (count_shells es [])) = sort (remdups (map shell es))"
proof (rule sorted_distinct_set_unique)
  show "distinct (sort (map fst (count_shells es [])))"
    by (simp add: distinct_count_shells)
  show "set (sort (map fst (count_shells es []))) = set (sort (remdups (map shell es)))"
    using keys_count_shells [of es "[]"] by simp
qed simp_all

lemma shell_lines_found:
  "(\<And>k. k \<in> set ks \<Longrightarrow> map_of d k = Some (f k))
   \<Longrightarrow> shell_lines d ks lines = Inr (lines @ map (\<lambda>k. shell_line k (f k)) ks)"
  by (induction ks arbitrary: lines) simp_all

lemma Atom_summary_lines_eq:
  "Atom_summary_lines a =
     Inr (summary_header a
          @ map (\<lambda>s. shell_line s (int (shell_count a s)))
              (sort (remdups (map shell (electrons a)))))"
proof -
  have "shell_lines (count_shells (electrons a) []) (sort (remdups (map shell (electrons a))))
          (summary_header a)
        = Inr (summary_header a
               @ map (\<lambda>s. shell_line s (int (shell_count a s)))
                   (sort (remdups (map shell (electrons a)))))"
    by (rule shell_lines_found) (simp add: map_of_count_shells dict_get_def shell_count_def)
  then show ?thesis
    by (simp add: Atom_summary_lines_def Let_def sorted_keys_count_shells)
qed

lemma count_list_map_shell:
  "count_list (map shell es) s = length (filter (\<lambda>e. shell e = s) es)"
  by (induction es) auto

lemma shell_count_count_list: "count_list (map shell (electrons a)) s = shell_count a s"
  by (simp add: shell_count_def count_list_map_shell)

lemma same_counts_same_shells:
  assumes "\<And>s. shell_count a s = shell_count b s"
  shows "set (map shell (electrons a)) = set (map shell (electrons b))"
    and "length (electrons a) = length (electrons b)"
proof -
  have "count (mset (map shell (electrons a))) s = count (mset (map shell (electrons b))) s" for s
    using assms [of s]
    by (simp only: count_mset shell_count_count_list)
  then have eq: "mset (map shell (electrons a)) = mset (map shell (electrons b))"
    by (rule multiset_eqI)
  from mset_eq_setD [OF eq]
  show "set (map shell (electrons a)) = set (map shell (electrons b))" .
  from eq have "size (mset (map shell (electrons a))) = size (mset (map shell (electrons b)))"
    by simp
  then show "length (electrons a) = length (electrons b)"
    by simp
qed

lemma summary_lines_depend_on_counts:
  assumes "Z a = Z b" and "\<And>s. shell_count a s = shell_count b s"
  shows "Atom_summary_lines a = Atom_summary_lines b"
proof -
  have "sort (remdups (map shell (electrons a))) = sort (remdups (map shell (electrons b)))"
    using same_counts_same_shells(1) [OF assms(2)]
    by (simp only: sorted_list_of_set_sort_remdups [symmetric])
  moreover have "summary_header a = summary_header b"
    using assms(1) same_counts_same_shells(2) [OF assms(2)]
    by (simp add: summary_header_def)
  ultimately show ?thesis
    by (simp add: Atom_summary_lines_eq assms(2))
qed

lemma default_summary_lines:
  "Atom_summary_lines (after_calls Atom_default cs) =
     Inr [''Atome : Oxyg'' @ [CHR 0xE8] @ ''ne (Z=8)'',
          ''Configuration (approx.): 1s2 2s2 2p4 -> total 8 '' @ [CHR 0xE9] @ ''lectrons'',
          ''Nombre d'' @ [CHR 0x27, CHR 0xE9] @ ''lectrons: 8'',
          ''  couche 1: 2 '' @ [CHR 0xE9] @ ''lectrons'',
          ''  couche 2: 6 '' @ [CHR 0xE9] @ ''lectrons'']"
  by (simp add: Atom_summary_lines_eq Atom_default_def shells_after_calls length_after_calls
      Z_after_calls shell_count_shells summary_header_def shell_line_def ATOM_NAME_def
      str_int_def digit_char_def)

text \<open>
  Claim C5. For a default atom after any sequence of calls (steps included), \<^verbatim>\<open>summary()\<close>
  does not raise and returns the five lines below joined by newlines: the total count is
  8, the text contains \<^verbatim>\<open>8 electrons\<close> (its first e being U+00E9), exactly two lines are
  shell lines, and
  \<^verbatim>\<open>couche 1: 2\<close> comes before \<^verbatim>\<open>couche 2: 6\<close>, the ascending shell order. For any two atoms
  with the same atomic number and the same number of electrons in every shell, whatever
  their angles, speeds and electron order, \<^verbatim>\<open>summary()\<close> returns the same result.
\<close>

theorem default_summary_report:
  "(\<exists>lines text.
       Atom_summary_lines (after_calls Atom_default cs) = Inr lines
     \<and> fst (Atom_summary (after_calls Atom_default cs)) = Inr text
     \<and> text = str_join [CHR 0x0A] lines
     \<and> lines =
         [''Atome : Oxyg'' @ [CHR 0xE8] @ ''ne (Z=8)'',
          ''Configuration (approx.): 1s2 2s2 2p4 -> total 8 '' @ [CHR 0xE9] @ ''lectrons'',
          ''Nombre d'' @ [CHR 0x27, CHR 0xE9] @ ''lectrons: 8'',
          ''  couche 1: 2 '' @ [CHR 0xE9] @ ''lectrons'',
          ''  couche 2: 6 '' @ [CHR 0xE9] @ ''lectrons'']
     \<and> filter (\<lambda>l. take 9 l = ''  couche '') lines =
         [''  couche 1: 2 '' @ [CHR 0xE9] @ ''lectrons'',
          ''  couche 2: 6 '' @ [CHR 0xE9] @ ''lectrons'']
     \<and> (\<exists>p m s. text = p @ ''couche 1: 2'' @ m @ ''couche 2: 6'' @ s)
     \<and> (\<exists>p s. text = p @ ''8 '' @ [CHR 0xE9] @ ''lectrons'' @ s))
   \<and> (Z a = Z b \<and> (\<forall>s. shell_count a s = shell_count b s)
        \<longrightarrow> fst (Atom_summary a) = fst (Atom_summary b))"
proof (intro conjI impI exI)
  show "Atom_summary_lines (after_calls Atom_default cs) =
     Inr [''Atome : Oxyg'' @ [CHR 0xE8] @ ''ne (Z=8)'',
          ''Configuration (approx.): 1s2 2s2 2p4 -> total 8 '' @ [CHR 0xE9] @ ''lectrons'',
          ''Nombre d'' @ [CHR 0x27, CHR 0xE9] @ ''lectrons: 8'',
          ''  couche 1: 2 '' @ [CHR 0xE9] @ ''lectrons'',
          ''  couche 2: 6 '' @ [CHR 0xE9] @ ''lectrons'']"
    by (rule default_summary_lines)
  show "fst (Atom_summary (after_calls Atom_default cs)) =
     Inr (str_join [CHR 0x0A]
         [''Atome : Oxyg'' @ [CHR 0xE8] @ ''ne (Z=8)'',
          ''Configuration (approx.): 1s2 2s2 2p4 -> total 8 '' @ [CHR 0xE9] @ ''lectrons'',
          ''Nombre d'' @ [CHR 0x27, CHR 0xE9] @ ''lectrons: 8'',
          ''  couche 1: 2 '' @ [CHR 0xE9] @ ''lectrons'',
          ''  couche 2: 6 '' @ [CHR 0xE9] @ ''lectrons''])"
    by (simp only: Atom_summary_def default_summary_lines) simp
  show "str_join [CHR 0x0A]
         [''Atome : Oxyg'' @ [CHR 0xE8] @ ''ne (Z=8)'',
          ''Configuration (approx.): 1s2 2s2 2p4 -> total 8 '' @ [CHR 0xE9] @ ''lectrons'',
          ''Nombre d'' @ [CHR 0x27, CHR 0xE9] @ ''lectrons: 8'',
          ''  couche 1: 2 '' @ [CHR 0xE9] @ ''lectrons'',
          ''  couche 2: 6 '' @ [CHR 0xE9] @ ''lectrons'']
      = (''Atome : Oxyg'' @ [CHR 0xE8] @ ''ne (Z=8)'' @ [CHR 0x0A]
          @ ''Configuration (approx.): 1s2 2s2 2p4 -> total 8 '' @ [CHR 0xE9] @ ''lectrons''
          @ [CHR 0x0A] @ ''Nombre d'' @ [CHR 0x27, CHR 0xE9] @ ''lectrons: 8'' @ [CHR 0x0A] @ ''  '')
        @ ''couche 1: 2'' @ ('' '' @ [CHR 0xE9] @ ''lectrons'' @ [CHR 0x0A] @ ''  '')
        @ ''couche 2: 6'' @ ('' '' @ [CHR 0xE9] @ ''lectrons'')"
    by simp
  show "str_join [CHR 0x0A]
         [''Atome : Oxyg'' @ [CHR 0xE8] @ ''ne (Z=8)'',
          ''Configuration (approx.): 1s2 2s2 2p4 -> total 8 '' @ [CHR 0xE9] @ ''lectrons'',
          ''Nombre d'' @ [CHR 0x27, CHR 0xE9] @ ''lectrons: 8'',
          ''  couche 1: 2 '' @ [CHR 0xE9] @ ''lectrons'',
          ''  couche 2: 6 '' @ [CHR 0xE9] @ ''lectrons'']
      = (''Atome : Oxyg'' @ [CHR 0xE8] @ ''ne (Z=8)'' @ [CHR 0x0A]
          @ ''Configuration (approx.): 1s2 2s2 2p4 -> total '')
        @ ''8 '' @ [CHR 0xE9] @ ''lectrons''
        @ ([CHR 0x0A] @ ''Nombre d'' @ [CHR 0x27, CHR 0xE9] @ ''lectrons: 8'' @ [CHR 0x0A]
           @ ''  couche 1: 2 '' @ [CHR 0xE9] @ ''lectrons'' @ [CHR 0x0A]
           @ ''  couche 2: 6 '' @ [CHR 0xE9] @ ''lectrons'')"
    by simp
  show "fst (Atom_summary a) = fst (Atom_summary b)"
    if "Z a = Z b \<and> (\<forall>s. shell_count a s = shell_count b s)"
    using that summary_lines_depend_on_counts [of a b]
    by (simp add: Atom_summary_def split: sum.split)
qed simp_all

theorem default_summary_report_witness:
  "Z Atom_default = Z \<lparr>Z = 8, electrons = rev (electrons (Atom_step Atom_default 1))\<rparr>
   \<and> shell_count Atom_default 1
       = shell_count \<lparr>Z = 8, electrons = rev (electrons (Atom_step Atom_default 1))\<rparr> 1
   \<and> shell_count Atom_default 2
       = shell_count \<lparr>Z = 8, electrons = rev (electrons (Atom_step Atom_default 1))\<rparr> 2
   \<and> fst (Atom_summary Atom_default)
       = fst (Atom_summary \<lparr>Z = 8, electrons = rev (electrons (Atom_step Atom_default 1))\<rparr>)"
proof -
  let ?b = "\<lparr>Z = 8, electrons = rev (electrons (Atom_step Atom_default 1))\<rparr>"
  have z: "Z Atom_default = Z ?b"
    by (simp add: Atom_default_def Atom_init_def Z_populated)
  have counts: "shell_count Atom_default s = shell_count ?b s" for s
    by (simp add: shell_count_def Atom_step_def Electron_step_def filter_map o_def
        rev_filter [symmetric])
  from z counts default_summary_report [of "[]" Atom_default ?b] show ?thesis
    by simp
qed


section \<open>One revolution of the first electron\<close>












section \<open>Mode selection and exit status\<close>









end
